theory Spec2Isabelle
  imports Main "HOL-Library.Sublist"
begin

section \<open>Exceptions, messages and the graph state\<close>

text \<open>
  Python exceptions are values. \<open>HttpError\<close> is the exception class of the Google API
  client that several tools name in their \<open>except\<close> clauses; \<open>IndexError\<close> is what
  \<open>xs[-1]\<close> raises on an empty list; \<open>GraphRecursionError\<close> is what the graph library
  raises when a run exceeds its step limit; every other exception class is
  \<open>OtherException\<close>. Each carries the text that \<open>str(e)\<close> (and an f-string) prints. A
  computation that may raise has type \<open>exn + 'a\<close>, with \<open>Inl\<close> for the raised
  exception.
\<close>

datatype exn = HttpError string | IndexError | GraphRecursionError | OtherException string

fun exn_str :: "exn \<Rightarrow> string" where
  "exn_str (HttpError m) = m"
| "exn_str IndexError = ''list index out of range''"
| "exn_str GraphRecursionError = ''Recursion limit reached without hitting a stop condition.''"
| "exn_str (OtherException m) = m"

text \<open>
  A function call requested by the chat model: the tool name and the argument mapping.
\<close>

record call =
  fc_name :: string
  fc_arguments :: "(string \<times> string) list"

text \<open>
  \<open>additional_kwargs\<close> of a message is a dict. The code asks two things of it:
  whether the key \<open>function_call\<close> is present, and whether the dict is empty. The record
  keeps the entry under \<open>function_call\<close> apart from the entries under all other keys.
\<close>

record kwargs =
  function_call :: "call option"
  other_keys :: "(string \<times> string) list"

definition no_kwargs :: kwargs where
  "no_kwargs = \<lparr>function_call = None, other_keys = []\<rparr>"

text \<open>\<open>"function_call" in d\<close>\<close>

definition has_function_call :: "kwargs \<Rightarrow> bool" where
  "has_function_call d = (function_call d \<noteq> None)"

text \<open>\<open>not d\<close>: a dict is falsy exactly when it is empty.\<close>

definition kwargs_empty :: "kwargs \<Rightarrow> bool" where
  "kwargs_empty d = (function_call d = None \<and> other_keys d = [])"

text \<open>
  The result of one tool execution: the output text, or the reason of the failure.
\<close>

datatype action_result = Output string | Failure string

text \<open>
  The message classes. A \<open>ToolMessage\<close> carries the reference to the request it
  answers, the tool name and the result. The sources never read or write an identifier
  of a request; a request is identified by its position in the transcript, and that
  position is the reference. Only an \<open>AIMessage\<close> returned by the chat model has
  entries in \<open>additional_kwargs\<close>; every message the code constructs itself is built
  from \<open>content\<close> alone.
\<close>

datatype message =
    SystemMessage string
  | HumanMessage string
  | AIMessage string kwargs
  | ToolMessage nat string action_result

fun content :: "message \<Rightarrow> string" where
  "content (SystemMessage c) = c"
| "content (HumanMessage c) = c"
| "content (AIMessage c k) = c"
| "content (ToolMessage ref tool (Output c)) = c"
| "content (ToolMessage ref tool (Failure c)) = c"

fun additional_kwargs :: "message \<Rightarrow> kwargs" where
  "additional_kwargs (AIMessage c k) = k"
| "additional_kwargs m = no_kwargs"

fun is_human :: "message \<Rightarrow> bool" where
  "is_human (HumanMessage c) = True"
| "is_human m = False"

text \<open>
  The bound chat model is an external service: a function from the messages it is sent
  to the content and \<open>additional_kwargs\<close> of the \<open>AIMessage\<close> it answers with, or to
  the exception the call raises.
\<close>

type_synonym chat_model = "message list \<Rightarrow> exn + (string \<times> kwargs)"

text \<open>
  \<open>AgentState\<close> has the single key \<open>messages\<close>, with the reducer
  \<open>lambda x, y: x + y\<close>: the update returned by a node is concatenated to the state.
\<close>

definition reducer :: "message list \<Rightarrow> message list \<Rightarrow> message list" where
  "reducer x y = x @ y"

text \<open>\<open>xs[-1]\<close>\<close>

definition last_item :: "'a list \<Rightarrow> exn + 'a" where
  "last_item xs = (case xs of [] \<Rightarrow> Inl IndexError | _ \<Rightarrow> Inr (last xs))"

text \<open>
  \<open>call_model\<close>: one call of the chat model on the system prompt followed by the
  state's messages; the update holds the one response.
\<close>

definition call_model :: "string \<Rightarrow> chat_model \<Rightarrow> message list \<Rightarrow> exn + message list" where
  "call_model prompt model messages =
     (case model (SystemMessage prompt # messages) of
        Inl e \<Rightarrow> Inl e
      | Inr (c, k) \<Rightarrow> Inr [AIMessage c k])"

definition should_continue :: "message list \<Rightarrow> exn + bool" where
  "should_continue messages =
     (case last_item messages of
        Inl e \<Rightarrow> Inl e
      | Inr m \<Rightarrow> Inr (has_function_call (additional_kwargs m)))"

section \<open>The top-level request interface\<close>

text \<open>
  An entry of the caller's history is a dict; \<open>d.get(k)\<close> is \<open>map_of d k\<close>. The values
  under \<open>type\<close> and \<open>content\<close> are texts.
\<close>

type_synonym history_entry = "(string \<times> string) list"

definition get_default :: "history_entry \<Rightarrow> string \<Rightarrow> string \<Rightarrow> string" where
  "get_default d k dflt = (case map_of d k of None \<Rightarrow> dflt | Some v \<Rightarrow> v)"

text \<open>The loop of \<open>invoke_agent\<close> over \<open>history\<close>, with the list \<open>messages\<close> it appends to.\<close>

fun reconstruct :: "history_entry list \<Rightarrow> message list \<Rightarrow> message list" where
  "reconstruct [] messages = messages"
| "reconstruct (msg # history) messages =
     (if map_of msg ''type'' = Some ''human''
      then reconstruct history (messages @ [HumanMessage (get_default msg ''content'' [])])
      else if map_of msg ''type'' = Some ''ai''
      then reconstruct history (messages @ [AIMessage (get_default msg ''content'' []) no_kwargs])
      else reconstruct history messages)"

definition invoke_agent_inputs :: "string \<Rightarrow> history_entry list \<Rightarrow> message list" where
  "invoke_agent_inputs query history = reconstruct history [] @ [HumanMessage query]"

text \<open>
  What the sentence of the specification says, for comparison: keep the entries of type
  human or ai, in order, each turned into the message of its type.
\<close>

definition is_human_or_ai :: "history_entry \<Rightarrow> bool" where
  "is_human_or_ai msg = (map_of msg ''type'' = Some ''human'' \<or> map_of msg ''type'' = Some ''ai'')"

definition entry_message :: "history_entry \<Rightarrow> message" where
  "entry_message msg =
     (if map_of msg ''type'' = Some ''human''
      then HumanMessage (get_default msg ''content'' [])
      else AIMessage (get_default msg ''content'' []) no_kwargs)"

section \<open>The tools of the specialists\<close>

text \<open>
  A tool returns either a text or a list of records; Python keeps both in one untyped
  return value.
\<close>

datatype 'a listing = Text string | Items "'a list"

subsection \<open>EmailAgent: \<open>send_email\<close> and \<open>get_emails\<close>\<close>

text \<open>
  The Gmail service as the tools use it. \<open>messages_list q\<close> is the response of
  \<open>users().messages().list(userId="me", q=q).execute()\<close>, whose key \<open>messages\<close> may be
  missing; \<open>messages_get i\<close> is the message with the identifier \<open>i\<close>, of which the code
  reads the header list of the payload and the snippet; \<open>messages_send\<close> receives the
  recipient, subject and body that the code encodes into the raw message.
\<close>

record message_ref =
  ref_id :: string
  ref_threadId :: string

record message_data =
  payload_headers :: "(string \<times> string) list"
  snippet :: string

record gmail_service =
  messages_list :: "string \<Rightarrow> exn + message_ref list option"
  messages_get :: "string \<Rightarrow> exn + message_data"
  messages_send :: "string \<times> string \<times> string \<Rightarrow> exn + unit"

text \<open>The dicts that \<open>get_emails\<close> appends: keys id, threadId, subject, from, snippet.\<close>

record email =
  email_id :: string
  email_threadId :: string
  email_subject :: string
  email_from :: string
  email_snippet :: string

text \<open>
  \<open>headers = {h['name']: h['value'] for h in ...}\<close> followed by \<open>headers.get(k, '')\<close>:
  in a dict comprehension a later entry replaces an earlier one of the same name.
\<close>

definition header :: "(string \<times> string) list \<Rightarrow> string \<Rightarrow> string" where
  "header hs k = (case map_of (rev hs) k of None \<Rightarrow> [] | Some v \<Rightarrow> v)"

definition email_of :: "message_ref \<Rightarrow> message_data \<Rightarrow> email" where
  "email_of msg msg_data =
     \<lparr>email_id = ref_id msg, email_threadId = ref_threadId msg,
      email_subject = header (payload_headers msg_data) ''Subject'',
      email_from = header (payload_headers msg_data) ''From'',
      email_snippet = snippet msg_data\<rparr>"

text \<open>The loop \<open>for msg in messages[:5]\<close>, with the list \<open>emails\<close> it appends to.\<close>

fun collect_emails :: "gmail_service \<Rightarrow> message_ref list \<Rightarrow> email list \<Rightarrow> exn + email list" where
  "collect_emails service [] emails = Inr emails"
| "collect_emails service (msg # rest) emails =
     (case messages_get service (ref_id msg) of
        Inl e \<Rightarrow> Inl e
      | Inr msg_data \<Rightarrow> collect_emails service rest (emails @ [email_of msg msg_data]))"

text \<open>
  The first argument of every tool is the outcome of its \<open>get_..._service()\<close> call,
  which reads the token file and may raise.
\<close>

definition get_emails :: "exn + gmail_service \<Rightarrow> string \<Rightarrow> exn + email listing" where
  "get_emails get_gmail_service query =
     (case get_gmail_service of
        Inl e \<Rightarrow> Inl e
      | Inr service \<Rightarrow>
          (case messages_list service query of
             Inl e \<Rightarrow> Inl e
           | Inr results \<Rightarrow>
               (let messages = (case results of None \<Rightarrow> [] | Some ms \<Rightarrow> ms)
                in if messages = [] then Inr (Text ''No emails found for that query.'')
                   else (case collect_emails service (take 5 messages) [] of
                           Inl e \<Rightarrow> Inl e
                         | Inr emails \<Rightarrow> Inr (Items emails)))))"

definition send_email :: "exn + gmail_service \<Rightarrow> string \<Rightarrow> string \<Rightarrow> string \<Rightarrow> exn + string" where
  "send_email get_gmail_service to subject body =
     (case get_gmail_service of
        Inl e \<Rightarrow> Inl e
      | Inr service \<Rightarrow>
          (case messages_send service (to, subject, body) of
             Inl e \<Rightarrow> Inl e
           | Inr sent_message \<Rightarrow> Inr (''Email sent to '' @ to @ ''.'')))"

subsection \<open>CalendarAgent: \<open>create_calendar_event\<close>\<close>

record calendar_event =
  ev_summary :: string
  ev_description :: "string option"
  ev_start :: "string \<times> string"
  ev_end :: "string \<times> string"
  ev_attendees :: "string list"

text \<open>\<open>events_insert\<close> answers with the created event, of which the code reads \<open>htmlLink\<close>.\<close>

record calendar_service =
  events_insert :: "calendar_event \<Rightarrow> exn + string option"

definition LOCAL_TIMEZONE :: string where
  "LOCAL_TIMEZONE = ''Asia/Kolkata''"

text \<open>An f-string prints \<open>None\<close> as the text \<open>None\<close>.\<close>

definition str_opt :: "string option \<Rightarrow> string" where
  "str_opt v = (case v of None \<Rightarrow> ''None'' | Some s \<Rightarrow> s)"

definition create_calendar_event ::
  "exn + calendar_service \<Rightarrow> string \<Rightarrow> string \<Rightarrow> string \<Rightarrow> string option \<Rightarrow> string list option
     \<Rightarrow> exn + string" where
  "create_calendar_event get_calendar_service summary start_time end_time description attendees =
     (case get_calendar_service of
        Inl e \<Rightarrow> Inl e
      | Inr service \<Rightarrow>
          (case events_insert service
                  \<lparr>ev_summary = summary, ev_description = description,
                   ev_start = (start_time, LOCAL_TIMEZONE), ev_end = (end_time, LOCAL_TIMEZONE),
                   ev_attendees = (case attendees of None \<Rightarrow> [] | Some as \<Rightarrow> as)\<rparr> of
             Inl (HttpError m) \<Rightarrow> Inr (''An error occurred: '' @ m)
           | Inl e \<Rightarrow> Inl e
           | Inr html_link \<Rightarrow>
               Inr (''Event created successfully. Summary: '' @ [CHR 0x27] @ summary @ [CHR 0x27]
                    @ ''. Link: '' @ str_opt html_link)))"

subsection \<open>ContactAgent: \<open>get_contacts\<close>\<close>

text \<open>
  A person of the People API, as the code reads it: the list under \<open>names\<close> (empty when
  the key is missing), each entry with an optional \<open>displayName\<close>, and the lists under
  \<open>phoneNumbers\<close> and \<open>emailAddresses\<close>, each entry with an optional \<open>value\<close>.
  \<open>connections_list\<close> is the response of the one \<open>connections().list(...).execute()\<close>
  call, whose key \<open>connections\<close> may be missing.
\<close>

record person =
  names :: "string option list"
  phoneNumbers :: "string option list"
  emailAddresses :: "string option list"

record people_service =
  connections_list :: "exn + person list option"

record contact =
  contact_name :: string
  contact_phones :: "string option list"
  contact_emails :: "string option list"

text \<open>
  \<open>str.lower\<close> is Python's lower-casing of Unicode text. Its tables are not part of
  the repository: it is the parameter \<open>lower\<close> of everything that calls it.

  \<open>any(lower_query in n.get("displayName", "").lower() for n in person.get("names", []))\<close>;
  \<open>a in b\<close> on strings is \<open>sublist a b\<close>.
\<close>

definition matches :: "(string \<Rightarrow> string) \<Rightarrow> string \<Rightarrow> person \<Rightarrow> bool" where
  "matches lower lower_query p =
     list_ex (\<lambda>n. sublist lower_query (lower (case n of None \<Rightarrow> [] | Some d \<Rightarrow> d))) (names p)"

text \<open>\<open>person.get("names", [{}])[0].get("displayName", "N/A")\<close>, reached only on a match.\<close>

definition first_display_name :: "person \<Rightarrow> string" where
  "first_display_name p =
     (case names p of
        [] \<Rightarrow> ''N/A''
      | n # ns \<Rightarrow> (case n of None \<Rightarrow> ''N/A'' | Some d \<Rightarrow> d))"

definition contact_of :: "person \<Rightarrow> contact" where
  "contact_of p =
     \<lparr>contact_name = first_display_name p, contact_phones = phoneNumbers p,
      contact_emails = emailAddresses p\<rparr>"

text \<open>The loop \<open>for person in all_contacts\<close>, with the list \<open>found_contacts\<close>.\<close>

fun find_contacts ::
  "(string \<Rightarrow> string) \<Rightarrow> string \<Rightarrow> person list \<Rightarrow> contact list \<Rightarrow> contact list" where
  "find_contacts lower lower_query [] found_contacts = found_contacts"
| "find_contacts lower lower_query (p # all_contacts) found_contacts =
     (if matches lower lower_query p
      then find_contacts lower lower_query all_contacts (found_contacts @ [contact_of p])
      else find_contacts lower lower_query all_contacts found_contacts)"

text \<open>
  \<open>get_people_service()\<close> is called before the \<open>try\<close>; the \<open>except\<close> clause names
  \<open>HttpError\<close> only.
\<close>

definition get_contacts ::
  "(string \<Rightarrow> string) \<Rightarrow> exn + people_service \<Rightarrow> string \<Rightarrow> exn + contact listing" where
  "get_contacts lower get_people_service query =
     (case get_people_service of
        Inl e \<Rightarrow> Inl e
      | Inr service \<Rightarrow>
          (case connections_list service of
             Inl (HttpError m) \<Rightarrow> Inr (Text (''An error occurred: '' @ m))
           | Inl e \<Rightarrow> Inl e
           | Inr connections \<Rightarrow>
               (let all_contacts = (case connections of None \<Rightarrow> [] | Some ps \<Rightarrow> ps);
                    found_contacts = find_contacts lower (lower query) all_contacts []
                in Inr (if found_contacts \<noteq> [] then Items found_contacts
                        else Text ''No contacts found matching that query.''))))"

section \<open>The action node\<close>

text \<open>
  A registered tool: name, description, the names of the parameters it requires, and the
  capability behind it.
\<close>

record tool_spec =
  tool_name :: string
  description :: string
  parameter_schema :: "string list"
  invoke :: "(string \<times> string) list \<Rightarrow> exn + string"

definition resolve :: "tool_spec list \<Rightarrow> string \<Rightarrow> tool_spec option" where
  "resolve tools n = find (\<lambda>t. tool_name t = n) tools"

definition validates :: "string list \<Rightarrow> (string \<times> string) list \<Rightarrow> bool" where
  "validates schema arguments = list_all (\<lambda>p. map_of arguments p \<noteq> None) schema"

text \<open>
  Modelled from the spec: the Action Step. The sources only construct the action node,
  \<open>ToolNode(tools)\<close>, from the graph library; what the node does with a request is not
  part of the repository. Section 4.3 of the specification: the step resolves the tool by
  name (an unknown name becomes a failed result instead of an exception), validates the
  arguments against the parameter schema (a mismatch becomes a failed result), invokes
  the capability exactly once, turns any exception of the capability into a failed
  result with a descriptive reason, and returns a tool-result message whose reference
  matches the request. \<open>ref\<close> is the position of the request in the transcript.
\<close>

definition action_step :: "tool_spec list \<Rightarrow> nat \<Rightarrow> call \<Rightarrow> message" where
  "action_step tools ref fc =
     ToolMessage ref (fc_name fc)
       (case resolve tools (fc_name fc) of
          None \<Rightarrow> Failure (''UnknownToolError: '' @ fc_name fc)
        | Some t \<Rightarrow>
            if \<not> validates (parameter_schema t) (fc_arguments fc)
            then Failure (''ArgumentValidationError: '' @ fc_name fc)
            else (case invoke t (fc_arguments fc) of
                    Inl e \<Rightarrow> Failure (''Error: '' @ exn_str e)
                  | Inr out \<Rightarrow> Output out))"

text \<open>
  Modelled from the spec: the action node as a node of the graph. It reads the request
  of the last message of the state and returns the update holding the one result, which
  refers to the position of that last message. On a state whose last message carries no
  request (the graph never routes such a state to the node) there is nothing to execute
  and the update is empty.
\<close>

definition tool_node :: "tool_spec list \<Rightarrow> message list \<Rightarrow> message list" where
  "tool_node tools messages =
     (case last_item messages of
        Inl e \<Rightarrow> []
      | Inr m \<Rightarrow>
          (case function_call (additional_kwargs m) of
             None \<Rightarrow> []
           | Some fc \<Rightarrow> [action_step tools (length messages - 1) fc]))"

text \<open>\<open>send_email\<close> as a registry entry: the arguments are passed by name.\<close>

definition arg :: "(string \<times> string) list \<Rightarrow> string \<Rightarrow> string" where
  "arg arguments p = (case map_of arguments p of None \<Rightarrow> [] | Some v \<Rightarrow> v)"

definition send_email_tool :: "exn + gmail_service \<Rightarrow> tool_spec" where
  "send_email_tool get_gmail_service =
     \<lparr>tool_name = ''send_email'', description = ''Sends a new email.'',
      parameter_schema = [''to'', ''subject'', ''body''],
      invoke = (\<lambda>a. send_email get_gmail_service (arg a ''to'') (arg a ''subject'') (arg a ''body''))\<rparr>"

section \<open>The compiled graph\<close>

text \<open>
  Every agent file wires the same graph: a node that calls the model (named
  \<open>supervisor\<close> in SupervisorAgent, \<open>agent\<close> in the specialists), a node \<open>action\<close>, the
  model node as entry point, the conditional edge \<open>should_continue\<close> from the model node
  (\<open>True\<close> to \<open>action\<close>, \<open>False\<close> to \<open>END\<close>) and the edge from \<open>action\<close> back to the model
  node.

  The sources compile every graph with \<open>workflow.compile()\<close> and run it with
  \<open>invoke\<close>, \<open>stream\<close> or \<open>astream\<close> on the inputs alone: no config is passed. The step
  limit of the graph library therefore applies with its default value: a run executes at
  most 25 nodes, and a run that would need one more ends with \<open>GraphRecursionError\<close>.
\<close>

definition recursion_limit :: nat where
  "recursion_limit = 25"

text \<open>
  Running the graph yields one event per executed node, the pair of the node name and
  the update the node returned (\<open>{node: {"messages": [...]}}\<close>), and ends either with
  the final state or with an exception. \<open>run_graph steps\<close> is the run from the model node
  in the state \<open>messages\<close> when \<open>steps\<close> more node executions are allowed: its events,
  and how it ended.
\<close>

type_synonym event = "string \<times> message list"

fun run_graph ::
  "nat \<Rightarrow> string \<Rightarrow> string \<Rightarrow> chat_model \<Rightarrow> (message list \<Rightarrow> message list) \<Rightarrow> message list
     \<Rightarrow> event list \<times> (exn + message list)" where
  "run_graph 0 node prompt model action messages = ([], Inl GraphRecursionError)"
| "run_graph (Suc steps) node prompt model action messages =
     (case call_model prompt model messages of
        Inl e \<Rightarrow> ([], Inl e)
      | Inr response \<Rightarrow>
          (case should_continue (reducer messages response) of
             Inl e \<Rightarrow> ([(node, response)], Inl e)
           | Inr continue \<Rightarrow>
               if continue
               then (case steps of
                       0 \<Rightarrow> ([(node, response)], Inl GraphRecursionError)
                     | Suc steps' \<Rightarrow>
                         (let update = action (reducer messages response);
                              rest = run_graph steps' node prompt model action
                                       (reducer (reducer messages response) update)
                          in ((node, response) # (''action'', update) # fst rest, snd rest)))
               else ([(node, response)], Inr (reducer messages response))))"

text \<open>\<open>app.stream(inputs)\<close>: the events, and how the run ended.\<close>

definition stream ::
  "string \<Rightarrow> string \<Rightarrow> chat_model \<Rightarrow> (message list \<Rightarrow> message list) \<Rightarrow> message list
     \<Rightarrow> event list \<times> (exn + message list)" where
  "stream node prompt model action inputs =
     run_graph recursion_limit node prompt model action inputs"

text \<open>\<open>app.invoke(inputs)\<close>: the final state, or the exception.\<close>

definition invoke_app ::
  "string \<Rightarrow> string \<Rightarrow> chat_model \<Rightarrow> (message list \<Rightarrow> message list) \<Rightarrow> message list
     \<Rightarrow> exn + message list" where
  "invoke_app node prompt model action inputs = snd (stream node prompt model action inputs)"

section \<open>The specialists as tools\<close>

text \<open>
  Each \<open>run_..._agent\<close> builds its graph and runs it on the query as the one human
  message. The system prompt, the bound model and the tool list of the specialist are
  parameters: the prompt text and the individual tools have no part in the control flow.

  \<open>run_email_agent\<close>: the final state has the single key \<open>messages\<close>, so the loop over
  \<open>result.items()\<close> that looks for a key \<open>action\<close> finds none, and the function returns
  by its last line, \<open>str(result['messages'][-1].content)\<close>.
\<close>

definition last_content :: "message list \<Rightarrow> exn + string" where
  "last_content messages =
     (case last_item messages of Inl e \<Rightarrow> Inl e | Inr m \<Rightarrow> Inr (content m))"

definition run_email_agent :: "string \<Rightarrow> chat_model \<Rightarrow> tool_spec list \<Rightarrow> string \<Rightarrow> exn + string" where
  "run_email_agent prompt model tools query =
     (case invoke_app ''agent'' prompt model (tool_node tools) [HumanMessage query] of
        Inl e \<Rightarrow> Inl e
      | Inr result \<Rightarrow> last_content result)"

definition run_contact_agent :: "string \<Rightarrow> chat_model \<Rightarrow> tool_spec list \<Rightarrow> string \<Rightarrow> exn + string" where
  "run_contact_agent prompt model tools query =
     (case invoke_app ''agent'' prompt model (tool_node tools) [HumanMessage query] of
        Inl e \<Rightarrow> Inl e
      | Inr result \<Rightarrow> last_content result)"

definition run_calendar_agent :: "string \<Rightarrow> chat_model \<Rightarrow> tool_spec list \<Rightarrow> string \<Rightarrow> exn + string" where
  "run_calendar_agent prompt model tools query =
     (case invoke_app ''agent'' prompt model (tool_node tools) [HumanMessage query] of
        Inl e \<Rightarrow> Inl e
      | Inr result \<Rightarrow> last_content result)"

text \<open>
  \<open>run_content_creator_agent\<close> and \<open>run_search_agent\<close> consume the event stream:
  an update whose last message is a human message is skipped, and the content of a last
  message with empty \<open>additional_kwargs\<close> replaces the answer held so far. The exception
  that ends a stream is raised once the events before it are consumed.
\<close>

fun scan_final :: "event list \<Rightarrow> string \<Rightarrow> exn + string" where
  "scan_final [] final_answer = Inr final_answer"
| "scan_final ((key, value) # events) final_answer =
     (case last_item value of
        Inl e \<Rightarrow> Inl e
      | Inr m \<Rightarrow>
          if is_human m then scan_final events final_answer
          else if kwargs_empty (additional_kwargs m) then scan_final events (content m)
          else scan_final events final_answer)"

definition consume_stream :: "(event list \<times> (exn + message list)) \<Rightarrow> exn + string" where
  "consume_stream s =
     (case scan_final (fst s) [] of
        Inl e \<Rightarrow> Inl e
      | Inr final_answer \<Rightarrow> (case snd s of Inl e \<Rightarrow> Inl e | Inr result \<Rightarrow> Inr final_answer))"

definition run_content_creator_agent ::
  "string \<Rightarrow> chat_model \<Rightarrow> tool_spec list \<Rightarrow> string \<Rightarrow> exn + string" where
  "run_content_creator_agent prompt model tools query =
     consume_stream (stream ''agent'' prompt model (tool_node tools) [HumanMessage query])"

definition run_search_agent ::
  "string \<Rightarrow> chat_model \<Rightarrow> tool_spec list \<Rightarrow> string \<Rightarrow> exn + string" where
  "run_search_agent prompt model tools query =
     consume_stream (stream ''agent'' prompt model (tool_node tools) [HumanMessage query])"

section \<open>The invoke endpoint\<close>





section \<open>Concrete providers and chat models\<close>

text \<open>
  Provider stubs on which the definitions are evaluated: a contact list with two people,
  a People service whose call times out, an inbox in which every search matches six
  messages and every send is refused, and an inbox in which no search matches.
\<close>

definition jane_service :: people_service where
  "jane_service = \<lparr>connections_list = Inr (Some
      [\<lparr>names = [Some ''Jane Doe''], phoneNumbers = [], emailAddresses = [Some ''jane@example.com'']\<rparr>,
       \<lparr>names = [Some ''Bob''], phoneNumbers = [Some ''+1''], emailAddresses = []\<rparr>])\<rparr>"

definition unreachable_service :: people_service where
  "unreachable_service = \<lparr>connections_list = Inl (OtherException ''timed out'')\<rparr>"

text \<open>\<open>str.lower\<close> on ASCII text, for the evaluation at ASCII names and queries.\<close>

definition ascii_lower :: "string \<Rightarrow> string" where
  "ascii_lower s =
     map (\<lambda>c. if 65 \<le> (of_char c :: nat) \<and> (of_char c :: nat) \<le> 90
              then char_of ((of_char c :: nat) + 32) else c) s"

definition inbox_refs :: "message_ref list" where
  "inbox_refs = map (\<lambda>i. \<lparr>ref_id = i, ref_threadId = ''t''\<rparr>) [''1'', ''2'', ''3'', ''4'', ''5'', ''6'']"

definition inbox_service :: gmail_service where
  "inbox_service =
     \<lparr>messages_list = (\<lambda>q. Inr (Some inbox_refs)),
      messages_get = (\<lambda>i. Inr \<lparr>payload_headers = [(''Subject'', ''Hello''), (''From'', ''jane@example.com'')],
                               snippet = ''Hi''\<rparr>),
      messages_send = (\<lambda>m. Inl (HttpError ''quota exceeded''))\<rparr>"

definition empty_inbox_service :: gmail_service where
  "empty_inbox_service =
     \<lparr>messages_list = (\<lambda>q. Inr None),
      messages_get = (\<lambda>i. Inl (HttpError ''not found'')),
      messages_send = (\<lambda>m. Inr ())\<rparr>"

definition send_request :: call where
  "send_request =
     \<lparr>fc_name = ''send_email'',
      fc_arguments = [(''to'', ''jane@example.com''), (''subject'', ''Hi''), (''body'', ''Hello'')]\<rparr>"

definition unknown_request :: call where
  "unknown_request = \<lparr>fc_name = ''delete_inbox'', fc_arguments = []\<rparr>"

text \<open>
  Chat models on which the graph is evaluated: one that requests the same action on
  every call, one that answers every call directly, one that requests one action and
  answers once it sees the result, one whose every call raises, and one that answers
  directly with a further entry in \<open>additional_kwargs\<close>; and the final state of the run
  of the third.
\<close>

definition always_requests :: chat_model where
  "always_requests messages = Inr ([], \<lparr>function_call = Some send_request, other_keys = []\<rparr>)"

definition answers_directly :: chat_model where
  "answers_directly messages = Inr (''It is mild.'', no_kwargs)"

definition asks_once :: chat_model where
  "asks_once messages =
     (case last_item messages of
        Inr (ToolMessage ref tool res) \<Rightarrow> Inr (''Done.'', no_kwargs)
      | _ \<Rightarrow> Inr ([], \<lparr>function_call = Some send_request, other_keys = []\<rparr>))"

definition failing_model :: chat_model where
  "failing_model messages = Inl (OtherException ''503 Service Unavailable'')"


definition once_transcript :: "message list" where
  "once_transcript =
     [HumanMessage ''email Jane'',
      AIMessage [] \<lparr>function_call = Some send_request, other_keys = []\<rparr>,
      ToolMessage 1 ''send_email'' (Failure ''Error: quota exceeded''),
      AIMessage ''Done.'' no_kwargs]"

section \<open>Runs of the graph as a relation\<close>

text \<open>
  The runs of the graph described as a relation, one rule for each way a run goes on or
  ends: \<open>trace node prompt model action steps messages events outcome\<close> holds when the
  run from the state \<open>messages\<close> with \<open>steps\<close> node executions left yields exactly
  \<open>events\<close> and ends with \<open>outcome\<close>. It is shown below to describe \<open>run_graph\<close>
  exactly, and serves to reason about it by rule induction.
\<close>

inductive trace ::
  "string \<Rightarrow> string \<Rightarrow> chat_model \<Rightarrow> (message list \<Rightarrow> message list) \<Rightarrow> nat \<Rightarrow> message list
     \<Rightarrow> event list \<Rightarrow> exn + message list \<Rightarrow> bool"
  for node prompt model action where
  out_of_steps:
    "trace node prompt model action 0 messages [] (Inl GraphRecursionError)"
| raised:
    "model (SystemMessage prompt # messages) = Inl e \<Longrightarrow>
     trace node prompt model action (Suc steps) messages [] (Inl e)"
| answered:
    "model (SystemMessage prompt # messages) = Inr (c, k) \<Longrightarrow> function_call k = None \<Longrightarrow>
     trace node prompt model action (Suc steps) messages [(node, [AIMessage c k])]
       (Inr (messages @ [AIMessage c k]))"
| exhausted:
    "model (SystemMessage prompt # messages) = Inr (c, k) \<Longrightarrow> function_call k = Some fc \<Longrightarrow>
     trace node prompt model action (Suc 0) messages [(node, [AIMessage c k])]
       (Inl GraphRecursionError)"
| requested:
    "model (SystemMessage prompt # messages) = Inr (c, k) \<Longrightarrow> function_call k = Some fc \<Longrightarrow>
     trace node prompt model action steps
       (messages @ [AIMessage c k] @ action (messages @ [AIMessage c k])) events outcome \<Longrightarrow>
     trace node prompt model action (Suc (Suc steps)) messages
       ((node, [AIMessage c k]) # (''action'', action (messages @ [AIMessage c k])) # events)
       outcome"

section \<open>Shapes of a run\<close>

text \<open>
  The update of a model node is a request when its one message carries a function call,
  and an answer when it carries none.
\<close>

definition is_request :: "message list \<Rightarrow> bool" where
  "is_request value = (case value of [AIMessage c k] \<Rightarrow> has_function_call k | _ \<Rightarrow> False)"

definition is_answer :: "message list \<Rightarrow> bool" where
  "is_answer value = (case value of [AIMessage c k] \<Rightarrow> \<not> has_function_call k | _ \<Rightarrow> False)"

text \<open>
  The events of a run with \<open>steps\<close> node executions allowed alternate strictly: an
  event of the model node that is a request is followed by exactly one event of the node
  \<open>action\<close>, whose update is the result of the action node on the state extended by the
  request, and the run goes on from the state extended by both; an event of the model
  node that is an answer is the last event; a request is the last event only when it
  used the last step allowed.
\<close>

fun alternation ::
  "nat \<Rightarrow> string \<Rightarrow> (message list \<Rightarrow> message list) \<Rightarrow> message list \<Rightarrow> event list \<Rightarrow> bool" where
  "alternation steps node action messages [] = True"
| "alternation steps node action messages [(key, value)] =
     (key = node \<and> (is_answer value \<or> is_request value \<and> steps = 1))"
| "alternation steps node action messages ((key, value) # (key', value') # events) =
     (key = node \<and> is_request value \<and> key' = ''action'' \<and> value' = action (messages @ value)
      \<and> 2 \<le> steps \<and> alternation (steps - 2) node action (messages @ value @ value') events)"

text \<open>
  The last event is an answer of the model node.
\<close>

definition ends_with_answer :: "string \<Rightarrow> event list \<Rightarrow> bool" where
  "ends_with_answer node events =
     (case last_item events of Inl e \<Rightarrow> False | Inr (key, value) \<Rightarrow> key = node \<and> is_answer value)"




section \<open>The chain of requests and results\<close>

text \<open>
  A message is an action request when it carries a function call.
\<close>

definition is_action_request :: "message \<Rightarrow> bool" where
  "is_action_request m = has_function_call (additional_kwargs m)"

text \<open>
  The positions of the earlier action requests that the reference of a tool result
  resolves to.
\<close>

definition resolving :: "message list \<Rightarrow> nat \<Rightarrow> nat list" where
  "resolving earlier ref = filter (\<lambda>j. j = ref \<and> is_action_request (earlier ! j)) [0..<length earlier]"

text \<open>
  A transcript is a valid chain when the reference of every tool-result message
  resolves to exactly one action request among the messages before it. \<open>chain_from\<close>
  walks the transcript with the messages already passed.
\<close>

fun chain_from :: "message list \<Rightarrow> message list \<Rightarrow> bool" where
  "chain_from earlier [] = True"
| "chain_from earlier (ToolMessage ref tool res # rest) =
     (length (resolving earlier ref) = 1 \<and> chain_from (earlier @ [ToolMessage ref tool res]) rest)"
| "chain_from earlier (m # rest) = chain_from (earlier @ [m]) rest"

definition valid_chain :: "message list \<Rightarrow> bool" where
  "valid_chain messages = chain_from [] messages"

text \<open>
  The stronger property: every tool-result message directly follows the action request
  its reference points to, and that request names the tool of the result.
\<close>

definition requests_tool :: "message \<Rightarrow> string \<Rightarrow> bool" where
  "requests_tool m tool = (map_option fc_name (function_call (additional_kwargs m)) = Some tool)"

fun follows_from :: "message list \<Rightarrow> message list \<Rightarrow> bool" where
  "follows_from earlier [] = True"
| "follows_from earlier (ToolMessage ref tool res # rest) =
     (Suc ref = length earlier \<and> requests_tool (earlier ! ref) tool
      \<and> follows_from (earlier @ [ToolMessage ref tool res]) rest)"
| "follows_from earlier (m # rest) = follows_from (earlier @ [m]) rest"

definition results_follow_requests :: "message list \<Rightarrow> bool" where
  "results_follow_requests messages = follows_from [] messages"

text \<open>
  The state after the first \<open>j\<close> events of a run: the reducer applied to the initial
  state and the updates of those events, in order.
\<close>

fun state_after :: "message list \<Rightarrow> event list \<Rightarrow> nat \<Rightarrow> message list" where
  "state_after messages events 0 = messages"
| "state_after messages [] (Suc j) = messages"
| "state_after messages ((key, update) # events) (Suc j) = state_after (reducer messages update) events j"

section \<open>Properties of the top-level request interface\<close>

lemma reconstruct_filter:
  "reconstruct history messages =
     messages @ map entry_message (filter is_human_or_ai history)"
  by (induction history arbitrary: messages)
     (simp_all add: is_human_or_ai_def entry_message_def)

text \<open>
  Claim C9. The messages handed to the supervisor are exactly the history entries of
  type human or ai, in their original order, followed by the query as a human message;
  an entry of any other type (or with no type) contributes nothing.
\<close>

theorem history_reconstruction:
  "invoke_agent_inputs query history =
     map entry_message (filter is_human_or_ai history) @ [HumanMessage query]"
  by (simp add: invoke_agent_inputs_def reconstruct_filter)

section \<open>Properties of the tools\<close>

lemma last_item_if: "last_item ys = (if ys = [] then Inl IndexError else Inr (last ys))"
  by (cases ys) (simp_all add: last_item_def)

lemma last_item_snoc [simp]: "last_item (xs @ [x]) = Inr x"
  by (simp add: last_item_if)

lemma collect_emails_Inr:
  "collect_emails service ms acc = Inr es \<Longrightarrow>
     \<exists>new. es = acc @ new \<and> length new = length ms \<and>
       (\<forall>i < length ms. \<exists>d. messages_get service (ref_id (ms ! i)) = Inr d \<and> new ! i = email_of (ms ! i) d)"
proof (induction ms arbitrary: acc es)
  case Nil
  then show ?case by simp
next
  case (Cons m ms)
  from Cons.prems obtain d where d: "messages_get service (ref_id m) = Inr d"
    and rest: "collect_emails service ms (acc @ [email_of m d]) = Inr es"
    by (auto split: sum.splits)
  from Cons.IH[OF rest] obtain new where new: "es = (acc @ [email_of m d]) @ new"
    "length new = length ms"
    "\<forall>i < length ms. \<exists>d. messages_get service (ref_id (ms ! i)) = Inr d \<and> new ! i = email_of (ms ! i) d"
    by blast
  have "\<forall>i < length (m # ms). \<exists>d'. messages_get service (ref_id ((m # ms) ! i)) = Inr d'
          \<and> (email_of m d # new) ! i = email_of ((m # ms) ! i) d'"
    using d new(3) by (auto simp: nth_Cons split: nat.splits)
  with new(1,2) show ?case
    by (intro exI[of _ "email_of m d # new"]) simp
qed

text \<open>
  Claim C8. When the search answers with no message, \<open>get_emails\<close> returns the text
  \<open>No emails found for that query.\<close>; when it answers with one or more messages and
  \<open>get_emails\<close> returns, it returns a list of at most five entries, one for each of the
  first five messages in order, each with the id and thread id of its message and the
  subject, sender and snippet read from the fetched message.
\<close>

theorem get_emails_result:
  assumes "messages_list service query = Inr results"
  shows "(results = None \<or> results = Some [] \<longrightarrow>
            get_emails (Inr service) query = Inr (Text ''No emails found for that query.''))
       \<and> (\<forall>ms r. results = Some ms \<and> ms \<noteq> [] \<and> get_emails (Inr service) query = Inr r \<longrightarrow>
            (\<exists>emails. r = Items emails \<and> length emails \<le> 5 \<and> length emails = min 5 (length ms)
               \<and> (\<forall>i < length emails. \<exists>d. messages_get service (ref_id (ms ! i)) = Inr d
                      \<and> emails ! i = email_of (ms ! i) d)))"
proof (intro conjI allI impI)
  assume "results = None \<or> results = Some []"
  with assms show "get_emails (Inr service) query = Inr (Text ''No emails found for that query.'')"
    by (auto simp: get_emails_def)
next
  fix ms r
  assume a: "results = Some ms \<and> ms \<noteq> [] \<and> get_emails (Inr service) query = Inr r"
  with assms obtain emails where e: "collect_emails service (take 5 ms) [] = Inr emails" "r = Items emails"
    by (auto simp: get_emails_def split: sum.splits)
  from collect_emails_Inr[OF e(1)] have
    len: "length emails = length (take 5 ms)" and
    el: "\<forall>i < length (take 5 ms). \<exists>d. messages_get service (ref_id (take 5 ms ! i)) = Inr d
            \<and> emails ! i = email_of (take 5 ms ! i) d"
    by auto
  from len have l5: "length emails = min 5 (length ms)" by (simp add: min.commute)
  moreover have "\<forall>i < length emails. \<exists>d. messages_get service (ref_id (ms ! i)) = Inr d
                      \<and> emails ! i = email_of (ms ! i) d"
    using el len by auto
  ultimately show "\<exists>emails. r = Items emails \<and> length emails \<le> 5 \<and> length emails = min 5 (length ms)
               \<and> (\<forall>i < length emails. \<exists>d. messages_get service (ref_id (ms ! i)) = Inr d
                      \<and> emails ! i = email_of (ms ! i) d)"
    using e(2) by auto
qed

text \<open>
  The theorem at an inbox without a match and at an inbox with six matches.
\<close>

theorem get_emails_result_witness:
  "get_emails (Inr empty_inbox_service) ''is:unread'' = Inr (Text ''No emails found for that query.'')
   \<and> (\<exists>emails. get_emails (Inr inbox_service) ''is:unread'' = Inr (Items emails)
          \<and> length emails = 5 \<and> email_id (emails ! 4) = ''5'')"
proof -
  have e: "messages_list empty_inbox_service ''is:unread'' = Inr None"
    by (simp add: empty_inbox_service_def)
  have i: "messages_list inbox_service ''is:unread'' = Inr (Some inbox_refs)"
    by (simp add: inbox_service_def)
  have g: "\<exists>r. get_emails (Inr inbox_service) ''is:unread'' = Inr r"
    by (simp add: get_emails_def inbox_service_def inbox_refs_def)
  have n: "inbox_refs \<noteq> []" "length inbox_refs = 6" "ref_id (inbox_refs ! 4) = ''5''"
    by (simp_all add: inbox_refs_def)
  from g obtain r where r: "get_emails (Inr inbox_service) ''is:unread'' = Inr r" ..
  from get_emails_result[OF i] r n(1) obtain emails where
    em: "r = Items emails" "length emails = min 5 (length inbox_refs)" and
    el: "\<forall>i < length emails. \<exists>d. messages_get inbox_service (ref_id (inbox_refs ! i)) = Inr d
        \<and> emails ! i = email_of (inbox_refs ! i) d"
    by blast
  from em n have "length emails = 5" by simp
  with el[rule_format, of 4] n have "email_id (emails ! 4) = ''5''"
    by (auto simp: email_of_def)
  with em n r have "\<exists>emails. get_emails (Inr inbox_service) ''is:unread'' = Inr (Items emails)
          \<and> length emails = 5 \<and> email_id (emails ! 4) = ''5''"
    by (auto simp: email_of_def)
  with get_emails_result[OF e] show ?thesis by simp
qed

lemma find_contacts_filter:
  "find_contacts lower q ps found = found @ map contact_of (filter (matches lower q) ps)"
  by (induction ps arbitrary: found) simp_all

text \<open>
  Claim C10, as amended. An exception of \<open>get_people_service\<close> is raised to the
  caller. Once the service is there, \<open>get_contacts\<close> returns one of three shapes
  whenever the provider call returns or raises \<open>HttpError\<close>: the non-empty list of the
  records (name, phones, emails) of the contacts one of whose display names contains the
  query, both lower-cased by \<open>str.lower\<close>; the text
  \<open>No contacts found matching that query.\<close> when there is none; the text beginning
  \<open>An error occurred:\<close> for an \<open>HttpError\<close>. Any other exception of the provider
  call is raised to the caller.
\<close>

theorem get_contacts_shapes:
  "get_contacts lower (Inl e) query = Inl e
   \<and> get_contacts lower (Inr service) query =
     (case connections_list service of
        Inr connections \<Rightarrow>
          Inr (let found = map contact_of (filter (matches lower (lower query))
                                 (case connections of None \<Rightarrow> [] | Some ps \<Rightarrow> ps))
               in if found \<noteq> [] then Items found
                  else Text ''No contacts found matching that query.'')
      | Inl (HttpError m) \<Rightarrow> Inr (Text (''An error occurred: '' @ m))
      | Inl e' \<Rightarrow> Inl e')"
  by (simp add: get_contacts_def find_contacts_filter Let_def split: sum.splits exn.splits)

text \<open>
  The theorem at a contact list with two people and the query \<open>JANE\<close>, and at a
  \<open>get_people_service\<close> that raises.
\<close>

theorem get_contacts_shapes_witness:
  "get_contacts ascii_lower (Inr jane_service) ''JANE'' =
     Inr (Items [\<lparr>contact_name = ''Jane Doe'', contact_phones = [],
                  contact_emails = [Some ''jane@example.com'']\<rparr>])
   \<and> get_contacts ascii_lower (Inl (OtherException ''token expired'')) ''JANE''
       = Inl (OtherException ''token expired'')"
proof -
  have "map contact_of (filter (matches ascii_lower (ascii_lower ''JANE''))
          [\<lparr>names = [Some ''Jane Doe''], phoneNumbers = [], emailAddresses = [Some ''jane@example.com'']\<rparr>,
           \<lparr>names = [Some ''Bob''], phoneNumbers = [Some ''+1''], emailAddresses = []\<rparr>])
        = [\<lparr>contact_name = ''Jane Doe'', contact_phones = [],
                  contact_emails = [Some ''jane@example.com'']\<rparr>]"
    by code_simp
  then show ?thesis
    using get_contacts_shapes[of ascii_lower "OtherException ''token expired''" "''JANE''" jane_service]
    by (simp add: jane_service_def)
qed

text \<open>
  Claim C10 as stated fails: \<open>get_contacts\<close> raises when the provider call raises an
  exception that is not an \<open>HttpError\<close>.
\<close>

theorem get_contacts_raises:
  "get_contacts ascii_lower (Inr unreachable_service) ''jane'' = Inl (OtherException ''timed out'')"
  by (simp add: get_contacts_def unreachable_service_def)

text \<open>
  The two tools cited for the handling of capability failures: \<open>send_email\<close> has no
  handler, \<open>create_calendar_event\<close> handles \<open>HttpError\<close> only.
\<close>

lemma send_email_propagates:
  "messages_send service (to, subject, body) = Inl e \<Longrightarrow>
     send_email (Inr service) to subject body = Inl e"
  by (simp add: send_email_def)

lemma create_calendar_event_handler:
  "events_insert service
      \<lparr>ev_summary = summary, ev_description = descr,
       ev_start = (start_time, LOCAL_TIMEZONE), ev_end = (end_time, LOCAL_TIMEZONE),
       ev_attendees = (case attendees of None \<Rightarrow> [] | Some as \<Rightarrow> as)\<rparr> = Inl e \<Longrightarrow>
   create_calendar_event (Inr service) summary start_time end_time descr attendees =
     (case e of HttpError m \<Rightarrow> Inr (''An error occurred: '' @ m) | _ \<Rightarrow> Inl e)"
  by (simp add: create_calendar_event_def split: exn.splits)

section \<open>Properties of the action node\<close>

text \<open>
  Claim C5. For a request whose tool name is not in the registry, the action node
  returns (it has no exception in its type) the one tool-result message for that request,
  failed, with a reason that contains the requested name.
\<close>

theorem unknown_tool_fails:
  assumes "function_call k = Some fc" and "resolve tools (fc_name fc) = None"
  shows "\<exists>reason. tool_node tools (messages @ [AIMessage c k])
             = [ToolMessage (length messages) (fc_name fc) (Failure reason)]
           \<and> sublist (fc_name fc) reason"
proof -
  have "sublist (fc_name fc) (''UnknownToolError: '' @ fc_name fc)"
    by (rule sublist_append_leftI)
  then show ?thesis using assms
    by (simp add: tool_node_def action_step_def)
qed

text \<open>
  The theorem at a registry holding \<open>send_email\<close> and a request for \<open>delete_inbox\<close>.
\<close>

theorem unknown_tool_fails_witness:
  "tool_node [send_email_tool (Inr inbox_service)] [HumanMessage ''q'',
      AIMessage [] \<lparr>function_call = Some unknown_request, other_keys = []\<rparr>]
   = [ToolMessage 1 ''delete_inbox'' (Failure ''UnknownToolError: delete_inbox'')]"
proof -
  have "resolve [send_email_tool (Inr inbox_service)] (fc_name unknown_request) = None"
    by (simp add: resolve_def send_email_tool_def unknown_request_def)
  from unknown_tool_fails[OF _ this, of "\<lparr>function_call = Some unknown_request, other_keys = []\<rparr>"
        "[HumanMessage ''q'']" "[]"]
  show ?thesis
    by (auto simp: unknown_request_def tool_node_def action_step_def resolve_def send_email_tool_def
          last_item_def)
qed

text \<open>
  Claim C2. When the capability of the requested tool raises an exception, the action
  node returns the one tool-result message for the request, failed; for arguments that
  pass validation the reason contains the text of the exception. No exception leaves the
  node.
\<close>

theorem capability_exception_caught:
  assumes "function_call k = Some fc" and "resolve tools (fc_name fc) = Some t"
    and "invoke t (fc_arguments fc) = Inl e"
  shows "\<exists>reason. tool_node tools (messages @ [AIMessage c k])
             = [ToolMessage (length messages) (fc_name fc) (Failure reason)]
           \<and> (validates (parameter_schema t) (fc_arguments fc) \<longrightarrow> sublist (exn_str e) reason)"
proof -
  have "sublist (exn_str e) (''Error: '' @ exn_str e)"
    by (rule sublist_append_leftI)
  then show ?thesis using assms
    by (simp add: tool_node_def action_step_def)
qed

text \<open>
  The theorem at \<open>send_email\<close>, which has no handler of its own, over a Gmail service
  that refuses the send with an \<open>HttpError\<close>: the tool raises, the node returns the
  failed result.
\<close>

theorem capability_exception_caught_witness:
  "send_email (Inr inbox_service) ''jane@example.com'' ''Hi'' ''Hello'' = Inl (HttpError ''quota exceeded'')
   \<and> tool_node [send_email_tool (Inr inbox_service)] [HumanMessage ''q'',
      AIMessage [] \<lparr>function_call = Some send_request, other_keys = []\<rparr>]
   = [ToolMessage 1 ''send_email'' (Failure ''Error: quota exceeded'')]"
proof -
  have s: "send_email (Inr inbox_service) ''jane@example.com'' ''Hi'' ''Hello'' = Inl (HttpError ''quota exceeded'')"
    by (simp add: send_email_def inbox_service_def)
  have r: "resolve [send_email_tool (Inr inbox_service)] (fc_name send_request)
             = Some (send_email_tool (Inr inbox_service))"
    by (simp add: resolve_def send_email_tool_def send_request_def)
  have i: "invoke (send_email_tool (Inr inbox_service)) (fc_arguments send_request)
             = Inl (HttpError ''quota exceeded'')"
    using s by (simp add: send_email_tool_def send_request_def arg_def)
  from capability_exception_caught[OF _ r i, of "\<lparr>function_call = Some send_request, other_keys = []\<rparr>"
        "[HumanMessage ''q'']" "[]"]
  have "tool_node [send_email_tool (Inr inbox_service)] [HumanMessage ''q'',
      AIMessage [] \<lparr>function_call = Some send_request, other_keys = []\<rparr>]
   = [ToolMessage 1 ''send_email'' (Failure ''Error: quota exceeded'')]"
    using s
    by (auto simp: send_request_def tool_node_def action_step_def resolve_def send_email_tool_def
          validates_def arg_def last_item_def)
  with s show ?thesis by simp
qed

section \<open>The graph loop and its runs\<close>

lemma should_continue_snoc [simp]:
  "should_continue (messages @ [AIMessage c k]) = Inr (function_call k \<noteq> None)"
  by (simp add: should_continue_def has_function_call_def)

lemma run_graph_raised:
  "model (SystemMessage prompt # messages) = Inl e \<Longrightarrow>
     run_graph (Suc steps) node prompt model action messages = ([], Inl e)"
  by (simp add: call_model_def)

lemma run_graph_answered:
  "model (SystemMessage prompt # messages) = Inr (c, k) \<Longrightarrow> function_call k = None \<Longrightarrow>
     run_graph (Suc steps) node prompt model action messages =
       ([(node, [AIMessage c k])], Inr (messages @ [AIMessage c k]))"
  by (simp add: call_model_def reducer_def)

lemma run_graph_exhausted:
  "model (SystemMessage prompt # messages) = Inr (c, k) \<Longrightarrow> function_call k = Some fc \<Longrightarrow>
     run_graph (Suc 0) node prompt model action messages =
       ([(node, [AIMessage c k])], Inl GraphRecursionError)"
  by (simp add: call_model_def reducer_def)

lemma run_graph_requested:
  "model (SystemMessage prompt # messages) = Inr (c, k) \<Longrightarrow> function_call k = Some fc \<Longrightarrow>
     run_graph (Suc (Suc steps)) node prompt model action messages =
       ((node, [AIMessage c k]) # (''action'', action (messages @ [AIMessage c k]))
          # fst (run_graph steps node prompt model action
                   (messages @ [AIMessage c k] @ action (messages @ [AIMessage c k]))),
        snd (run_graph steps node prompt model action
               (messages @ [AIMessage c k] @ action (messages @ [AIMessage c k]))))"
  by (simp add: call_model_def reducer_def Let_def)

declare run_graph.simps [simp del]

lemma trace_run_graph:
  "trace node prompt model action steps messages events outcome \<Longrightarrow>
     run_graph steps node prompt model action messages = (events, outcome)"
proof (induction rule: trace.induct)
  case (out_of_steps messages)
  show ?case by (simp add: run_graph.simps)
next
  case (raised messages e steps)
  then show ?case by (rule run_graph_raised)
next
  case (answered messages c k steps)
  then show ?case by (rule run_graph_answered)
next
  case (exhausted messages c k fc)
  then show ?case by (rule run_graph_exhausted)
next
  case (requested messages c k fc steps events outcome)
  then show ?case by (simp add: run_graph_requested del: append.simps)
qed

lemma trace_total:
  "\<exists>events outcome. trace node prompt model action steps messages events outcome"
proof (induction steps arbitrary: messages rule: less_induct)
  case (less steps)
  show ?case
  proof (cases steps)
    case 0
    then show ?thesis by (auto intro: trace.out_of_steps)
  next
    case (Suc s)
    show ?thesis
    proof (cases "model (SystemMessage prompt # messages)")
      case (Inl e)
      with Suc show ?thesis by (auto intro: trace.raised)
    next
      case (Inr ck)
      obtain c k where ck: "ck = (c, k)" by (cases ck)
      show ?thesis
      proof (cases "function_call k")
        case None
        with Inr ck Suc show ?thesis by (auto intro: trace.answered)
      next
        case (Some fc)
        show ?thesis
        proof (cases s)
          case 0
          with Inr ck Suc Some show ?thesis by (auto intro: trace.exhausted)
        next
          case (Suc s')
          with \<open>steps = Suc s\<close> have "s' < steps" by simp
          from less[OF this] obtain events outcome where
            "trace node prompt model action s'
               (messages @ [AIMessage c k] @ action (messages @ [AIMessage c k])) events outcome"
            by blast
          from trace.requested[where model = model and prompt = prompt and node = node
                 and action = action, OF _ Some this] Inr ck
          show ?thesis using \<open>steps = Suc s\<close> Suc by auto
        qed
      qed
    qed
  qed
qed

lemma run_graph_iff:
  "run_graph steps node prompt model action messages = (events, outcome)
     \<longleftrightarrow> trace node prompt model action steps messages events outcome"
proof
  assume r: "run_graph steps node prompt model action messages = (events, outcome)"
  obtain events' outcome' where t: "trace node prompt model action steps messages events' outcome'"
    using trace_total by blast
  from trace_run_graph[OF t] r show "trace node prompt model action steps messages events outcome"
    using t by simp
next
  assume "trace node prompt model action steps messages events outcome"
  then show "run_graph steps node prompt model action messages = (events, outcome)"
    by (rule trace_run_graph)
qed

lemma run_graph_trace:
  "trace node prompt model action steps messages
     (fst (run_graph steps node prompt model action messages))
     (snd (run_graph steps node prompt model action messages))"
  by (simp add: run_graph_iff[symmetric])

section \<open>Properties of the graph loop\<close>

lemma is_answer_iff:
  "is_answer value \<longleftrightarrow> (\<exists>c k. value = [AIMessage c k] \<and> \<not> has_function_call k)"
proof (cases "value")
  case Nil
  then show ?thesis by (simp add: is_answer_def)
next
  case (Cons m ms)
  then show ?thesis by (cases ms; cases m) (simp_all add: is_answer_def)
qed

lemma is_request_iff:
  "is_request value \<longleftrightarrow> (\<exists>c k. value = [AIMessage c k] \<and> has_function_call k)"
proof (cases "value")
  case Nil
  then show ?thesis by (simp add: is_request_def)
next
  case (Cons m ms)
  then show ?thesis by (cases ms; cases m) (simp_all add: is_request_def)
qed

lemma ends_with_answer_Cons:
  "events \<noteq> [] \<Longrightarrow> ends_with_answer node (ev # events) = ends_with_answer node events"
  by (cases events) (simp_all add: ends_with_answer_def last_item_def)

lemma ends_with_answer_nonempty: "ends_with_answer node events \<Longrightarrow> events \<noteq> []"
  by (auto simp: ends_with_answer_def last_item_def)

lemma trace_alternation:
  assumes "trace node prompt model action steps messages events outcome"
  shows "alternation steps node action messages events
       \<and> (\<forall>result. outcome = Inr result \<longrightarrow>
            ends_with_answer node events \<and> result = messages @ concat (map snd events))"
  using assms
proof (induction rule: trace.induct)
  case (out_of_steps messages)
  show ?case by simp
next
  case (raised messages e steps)
  show ?case by simp
next
  case (answered messages c k steps)
  then show ?case
    by (simp add: ends_with_answer_def last_item_def is_answer_iff has_function_call_def)
next
  case (exhausted messages c k fc)
  then show ?case by (simp add: is_request_iff has_function_call_def)
next
  case (requested messages c k fc steps events outcome)
  have "ends_with_answer node
          ((node, [AIMessage c k]) # (''action'', action (messages @ [AIMessage c k])) # events)"
    if "ends_with_answer node events"
    using that ends_with_answer_nonempty[OF that] by (simp add: ends_with_answer_Cons)
  with requested show ?case
    by (simp add: is_request_iff has_function_call_def)
qed


lemma stream_asks_once:
  "stream node [] asks_once (tool_node [send_email_tool (Inr inbox_service)]) [HumanMessage ''email Jane'']
     = ([(node, [AIMessage [] \<lparr>function_call = Some send_request, other_keys = []\<rparr>]),
         (''action'', [ToolMessage 1 ''send_email'' (Failure ''Error: quota exceeded'')]),
         (node, [AIMessage ''Done.'' no_kwargs])], Inr once_transcript)"
proof -
  have 1: "asks_once (SystemMessage [] # [HumanMessage ''email Jane''])
             = Inr ([], \<lparr>function_call = Some send_request, other_keys = []\<rparr>)"
    by (simp add: asks_once_def last_item_def)
  have 2: "tool_node [send_email_tool (Inr inbox_service)]
              ([HumanMessage ''email Jane''] @ [AIMessage [] \<lparr>function_call = Some send_request, other_keys = []\<rparr>])
             = [ToolMessage 1 ''send_email'' (Failure ''Error: quota exceeded'')]"
    by (simp add: tool_node_def last_item_def action_step_def send_request_def send_email_tool_def
          resolve_def validates_def arg_def send_email_def inbox_service_def)
  have 3: "asks_once (SystemMessage [] # [HumanMessage ''email Jane''] @
               [AIMessage [] \<lparr>function_call = Some send_request, other_keys = []\<rparr>] @
               [ToolMessage 1 ''send_email'' (Failure ''Error: quota exceeded'')])
             = Inr (''Done.'', no_kwargs)"
    by (simp add: asks_once_def last_item_def)
  have k: "function_call \<lparr>function_call = Some send_request, other_keys = []\<rparr> = Some send_request"
    "function_call no_kwargs = None"
    by (simp_all add: no_kwargs_def)
  have rl: "recursion_limit = Suc (Suc (Suc 22))" by (simp add: recursion_limit_def)
  have "run_graph (Suc (Suc (Suc 22))) node [] asks_once (tool_node [send_email_tool (Inr inbox_service)])
          [HumanMessage ''email Jane'']
     = ([(node, [AIMessage [] \<lparr>function_call = Some send_request, other_keys = []\<rparr>]),
         (''action'', [ToolMessage 1 ''send_email'' (Failure ''Error: quota exceeded'')]),
         (node, [AIMessage ''Done.'' no_kwargs])], Inr once_transcript)"
    unfolding run_graph_requested[where model = asks_once and prompt = "[]"
                and messages = "[HumanMessage ''email Jane'']", OF 1 k(1)] 2
              run_graph_answered[where model = asks_once and prompt = "[]"
                and messages = "[HumanMessage ''email Jane''] @
                  [AIMessage [] \<lparr>function_call = Some send_request, other_keys = []\<rparr>] @
                  [ToolMessage 1 ''send_email'' (Failure ''Error: quota exceeded'')]", OF 3 k(2)]
    by (simp add: once_transcript_def)
  then show ?thesis by (simp only: stream_def rl)
qed


lemma always_requests_trace:
  "trace node prompt always_requests action steps messages events outcome \<Longrightarrow>
     outcome = Inl GraphRecursionError \<and> length events = steps
     \<and> (odd steps \<longrightarrow> events \<noteq> []
           \<and> last events = (node, [AIMessage [] \<lparr>function_call = Some send_request, other_keys = []\<rparr>]))"
  by (induction rule: trace.induct) (auto simp: always_requests_def)









section \<open>Properties of the transcript\<close>

lemma tool_node_request:
  "function_call k = Some fc \<Longrightarrow>
     tool_node tools (messages @ [AIMessage c k]) = [action_step tools (length messages) fc]"
  by (simp add: tool_node_def)

lemma filter_eq_upt:
  "filter (\<lambda>j. j = ref \<and> P j) [0..<n] = (if ref < n \<and> P ref then [ref] else [])"
  by (induction n) (auto simp: less_Suc_eq)

lemma resolving_eq:
  "resolving earlier ref =
     (if ref < length earlier \<and> is_action_request (earlier ! ref) then [ref] else [])"
  by (simp add: resolving_def filter_eq_upt)

lemma chain_from_append:
  "chain_from earlier (xs @ ys) \<longleftrightarrow> chain_from earlier xs \<and> chain_from (earlier @ xs) ys"
  by (induction earlier xs rule: chain_from.induct) simp_all

lemma follows_from_append:
  "follows_from earlier (xs @ ys) \<longleftrightarrow> follows_from earlier xs \<and> follows_from (earlier @ xs) ys"
  by (induction earlier xs rule: follows_from.induct) simp_all

lemma valid_chain_answer: "valid_chain messages \<Longrightarrow> valid_chain (messages @ [AIMessage c k])"
  by (simp add: valid_chain_def chain_from_append)

lemma valid_chain_result:
  "valid_chain messages \<Longrightarrow> function_call k = Some fc \<Longrightarrow>
     valid_chain (messages @ [AIMessage c k] @ tool_node tools (messages @ [AIMessage c k]))"
  by (simp add: valid_chain_def chain_from_append tool_node_request action_step_def resolving_eq
        is_action_request_def has_function_call_def nth_append)

lemma follows_answer:
  "results_follow_requests messages \<Longrightarrow> results_follow_requests (messages @ [AIMessage c k])"
  by (simp add: results_follow_requests_def follows_from_append)

lemma follows_result:
  "results_follow_requests messages \<Longrightarrow> function_call k = Some fc \<Longrightarrow>
     results_follow_requests (messages @ [AIMessage c k] @ tool_node tools (messages @ [AIMessage c k]))"
  by (simp add: results_follow_requests_def follows_from_append tool_node_request action_step_def
        requests_tool_def nth_append)

lemma state_after_Cons2:
  "state_after messages ((k1, u1) # (k2, u2) # events) j =
     (if j = 0 then messages else if j = 1 then messages @ u1
      else state_after (messages @ u1 @ u2) events (j - 2))"
  by (cases j; cases "j - 1") (simp_all add: reducer_def)

lemma state_after_single:
  "state_after messages [(k1, u1)] j = (if j = 0 then messages else messages @ u1)"
  by (cases j; cases "j - 1") (simp_all add: reducer_def)

lemma trace_states:
  "trace node prompt model (tool_node tools) steps messages events outcome \<Longrightarrow>
     (valid_chain messages \<longrightarrow> valid_chain (state_after messages events j))
     \<and> (results_follow_requests messages \<longrightarrow> results_follow_requests (state_after messages events j))"
proof (induction arbitrary: j rule: trace.induct)
  case (out_of_steps messages)
  show ?case by (cases j) simp_all
next
  case (raised messages e steps)
  show ?case by (cases j) simp_all
next
  case (answered messages c k steps)
  show ?case by (simp add: state_after_single valid_chain_answer follows_answer)
next
  case (exhausted messages c k fc)
  show ?case by (simp add: state_after_single valid_chain_answer follows_answer)
next
  case (requested messages c k fc steps events outcome)
  have v: "valid_chain (messages @ [AIMessage c k] @ tool_node tools (messages @ [AIMessage c k]))"
    if "valid_chain messages"
    using that requested.hyps(2) by (rule valid_chain_result)
  have f: "results_follow_requests
             (messages @ [AIMessage c k] @ tool_node tools (messages @ [AIMessage c k]))"
    if "results_follow_requests messages"
    using that requested.hyps(2) by (rule follows_result)
  from v f requested.IH[of "j - 2"] show ?case
    by (auto simp: state_after_Cons2 valid_chain_answer follows_answer)
qed

lemma state_after_prefix: "prefix messages (state_after messages events j)"
proof (induction messages events j rule: state_after.induct)
  case (3 messages key update events j)
  then show ?case by (auto simp: reducer_def dest: append_prefixD)
qed simp_all

lemma state_after_Suc:
  "j < length events \<Longrightarrow>
     state_after messages events (Suc j) = state_after messages events j @ snd (events ! j)"
proof (induction messages events j rule: state_after.induct)
  case (1 messages events)
  then show ?case by (cases events) (auto simp: reducer_def)
next
  case (2 messages j)
  then show ?case by simp
next
  case (3 messages key update events j)
  then show ?case by simp
qed

lemma state_after_length:
  "state_after messages events (length events) = messages @ concat (map snd events)"
  by (induction events arbitrary: messages) (auto simp: reducer_def)

lemma inputs_valid_chain:
  "valid_chain (invoke_agent_inputs query history) \<and> valid_chain [HumanMessage query]"
proof -
  have "chain_from earlier (map entry_message hs)" for earlier hs
    by (induction hs arbitrary: earlier) (simp_all add: entry_message_def)
  then show ?thesis
    by (simp add: valid_chain_def invoke_agent_inputs_def reconstruct_filter chain_from_append)
qed

text \<open>
  Claim C6. After any number \<open>j\<close> of transitions of a run, the state is the initial
  state with updates appended: the initial state is a prefix of it, and the next
  transition appends its update to it and changes nothing else. If the initial
  transcript is a valid chain, so is the state after every transition: the reference of
  every tool-result message resolves to exactly one preceding action request; moreover
  every tool result directly follows the request it refers to. A run that reaches \<open>END\<close>
  returns the state after its last transition. The transcripts the program starts from,
  the query alone and the reconstructed history followed by the query, are valid chains.
\<close>

theorem transcript_append_only:
  "(\<forall>j \<le> length (fst (run_graph steps node prompt model (tool_node tools) messages)).
            prefix messages
              (state_after messages (fst (run_graph steps node prompt model (tool_node tools) messages)) j)
            \<and> (valid_chain messages \<longrightarrow>
                 valid_chain
                   (state_after messages (fst (run_graph steps node prompt model (tool_node tools) messages)) j))
            \<and> (results_follow_requests messages \<longrightarrow>
                 results_follow_requests
                   (state_after messages (fst (run_graph steps node prompt model (tool_node tools) messages)) j))
            \<and> (j < length (fst (run_graph steps node prompt model (tool_node tools) messages)) \<longrightarrow>
                 state_after messages (fst (run_graph steps node prompt model (tool_node tools) messages)) (Suc j)
                 = state_after messages (fst (run_graph steps node prompt model (tool_node tools) messages)) j
                   @ snd (fst (run_graph steps node prompt model (tool_node tools) messages) ! j)))
       \<and> (\<forall>result. snd (run_graph steps node prompt model (tool_node tools) messages) = Inr result \<longrightarrow>
             result = state_after messages
                        (fst (run_graph steps node prompt model (tool_node tools) messages))
                        (length (fst (run_graph steps node prompt model (tool_node tools) messages))))
       \<and> valid_chain [HumanMessage query]
       \<and> valid_chain (invoke_agent_inputs query history)"
proof -
  let ?run = "run_graph steps node prompt model (tool_node tools) messages"
  have tr: "trace node prompt model (tool_node tools) steps messages (fst ?run) (snd ?run)"
    by (rule run_graph_trace)
  from trace_states[OF tr] state_after_prefix state_after_Suc
       trace_alternation[OF tr] state_after_length inputs_valid_chain
  show ?thesis by simp
qed

text \<open>
  The theorem at the run of a model that requests \<open>send_email\<close> once.
\<close>

theorem transcript_append_only_witness:
  "valid_chain once_transcript \<and> results_follow_requests once_transcript
   \<and> prefix [HumanMessage ''email Jane''] once_transcript
   \<and> valid_chain [HumanMessage ''email Jane'',
                   AIMessage [] \<lparr>function_call = Some send_request, other_keys = []\<rparr>]"
proof -
  let ?tools = "[send_email_tool (Inr inbox_service)]"
  have i: "valid_chain [HumanMessage ''email Jane'']" "results_follow_requests [HumanMessage ''email Jane'']"
    by (simp_all add: valid_chain_def results_follow_requests_def)
  note r = stream_asks_once[of "''agent''", unfolded stream_def]
  from transcript_append_only[where messages = "[HumanMessage ''email Jane'']"
         and steps = recursion_limit and node = "''agent''" and prompt = "[]"
         and model = asks_once and tools = ?tools] i
  have "\<forall>j \<le> 3. prefix [HumanMessage ''email Jane'']
                    (state_after [HumanMessage ''email Jane'']
                       (fst (run_graph recursion_limit ''agent'' [] asks_once (tool_node ?tools)
                               [HumanMessage ''email Jane''])) j)
                \<and> valid_chain (state_after [HumanMessage ''email Jane'']
                       (fst (run_graph recursion_limit ''agent'' [] asks_once (tool_node ?tools)
                               [HumanMessage ''email Jane''])) j)
                \<and> results_follow_requests (state_after [HumanMessage ''email Jane'']
                       (fst (run_graph recursion_limit ''agent'' [] asks_once (tool_node ?tools)
                               [HumanMessage ''email Jane''])) j)"
    by (simp add: r)
  from this[rule_format, of 3] this[rule_format, of 1] show ?thesis
    by (simp add: r once_transcript_def reducer_def eval_nat_numeral)
qed

section \<open>Properties of the specialists as tools\<close>

lemma trace_updates_nonempty:
  "trace node prompt model (tool_node tools) steps messages events outcome \<Longrightarrow>
     \<forall>ev \<in> set events. snd ev \<noteq> []"
  by (induction rule: trace.induct) (simp_all add: tool_node_request)

lemma trace_result_last:
  "trace node prompt model action steps messages events outcome \<Longrightarrow> outcome = Inr result \<Longrightarrow>
     \<exists>ms c k. result = ms @ [AIMessage c k] \<and> function_call k = None
        \<and> (\<exists>evs. events = evs @ [(node, [AIMessage c k])])"
proof (induction rule: trace.induct)
  case (answered messages c k steps)
  then show ?case by auto
next
  case (requested messages c k fc steps events outcome)
  then obtain ms c' k' evs where "result = ms @ [AIMessage c' k']" "function_call k' = None"
    "events = evs @ [(node, [AIMessage c' k'])]" by blast
  then show ?case
    by (intro exI[of _ ms] exI[of _ c'] exI[of _ k'] conjI
          exI[of _ "(node, [AIMessage c k]) # (''action'', action (messages @ [AIMessage c k])) # evs"])
       simp_all
qed simp_all

lemma trace_exception:
  "trace node prompt model action steps messages events outcome \<Longrightarrow> outcome = Inl e \<Longrightarrow>
     e = GraphRecursionError \<or> (\<exists>ms. model ms = Inl e)"
  by (induction rule: trace.induct) auto

lemma scan_final_append:
  "scan_final (xs @ ys) acc =
     (case scan_final xs acc of Inl e \<Rightarrow> Inl e | Inr a \<Rightarrow> scan_final ys a)"
  by (induction xs acc rule: scan_final.induct) (simp split: sum.splits)+

lemma scan_final_total:
  "\<forall>ev \<in> set events. snd ev \<noteq> [] \<Longrightarrow> \<exists>answer. scan_final events acc = Inr answer"
  by (induction events acc rule: scan_final.induct) (auto simp: last_item_if)

text \<open>
  Claim C4, as amended. Each of the five \<open>run_..._agent\<close> functions either returns a
  text or raises. If the specialist's run reached \<open>END\<close>, the email, contact and
  calendar specialists return the content of the last message, and the content-creator
  and search specialists return a text, which is that content when the last message has
  empty \<open>additional_kwargs\<close>. If the run ended with an exception, which is either the
  exception raised by a call of the chat model or \<open>GraphRecursionError\<close>, the function
  raises that exception, unwrapped.
\<close>

theorem specialist_returns_or_raises:
  "(\<forall>e. invoke_app ''agent'' prompt model (tool_node tools) [HumanMessage query] = Inl e \<longrightarrow>
        run_email_agent prompt model tools query = Inl e
        \<and> run_contact_agent prompt model tools query = Inl e
        \<and> run_calendar_agent prompt model tools query = Inl e
        \<and> run_content_creator_agent prompt model tools query = Inl e
        \<and> run_search_agent prompt model tools query = Inl e
        \<and> (e = GraphRecursionError \<or> (\<exists>ms. model ms = Inl e)))
   \<and> (\<forall>result. invoke_app ''agent'' prompt model (tool_node tools) [HumanMessage query] = Inr result \<longrightarrow>
        run_email_agent prompt model tools query = Inr (content (last result))
        \<and> run_contact_agent prompt model tools query = Inr (content (last result))
        \<and> run_calendar_agent prompt model tools query = Inr (content (last result))
        \<and> (\<exists>answer. run_content_creator_agent prompt model tools query = Inr answer
               \<and> (kwargs_empty (additional_kwargs (last result)) \<longrightarrow> answer = content (last result)))
        \<and> (\<exists>answer. run_search_agent prompt model tools query = Inr answer
               \<and> (kwargs_empty (additional_kwargs (last result)) \<longrightarrow> answer = content (last result))))"
proof (intro conjI allI impI)
  let ?s = "stream ''agent'' prompt model (tool_node tools) [HumanMessage query]"
  have tr: "trace ''agent'' prompt model (tool_node tools) recursion_limit [HumanMessage query]
              (fst ?s) (snd ?s)"
    unfolding stream_def by (rule run_graph_trace)
  from trace_updates_nonempty[OF tr] have ne: "\<forall>ev \<in> set (fst ?s). snd ev \<noteq> []" .
  {
    fix e assume "invoke_app ''agent'' prompt model (tool_node tools) [HumanMessage query] = Inl e"
    then have o: "snd ?s = Inl e" by (simp add: invoke_app_def)
    from scan_final_total[OF ne, of "[]"] obtain t where t: "scan_final (fst ?s) [] = Inr t" ..
    from o show "run_email_agent prompt model tools query = Inl e"
      "run_contact_agent prompt model tools query = Inl e"
      "run_calendar_agent prompt model tools query = Inl e"
      by (simp_all add: run_email_agent_def run_contact_agent_def run_calendar_agent_def invoke_app_def)
    from o t show "run_content_creator_agent prompt model tools query = Inl e"
      "run_search_agent prompt model tools query = Inl e"
      by (simp_all add: run_content_creator_agent_def run_search_agent_def consume_stream_def)
    from trace_exception[OF tr o] show "e = GraphRecursionError \<or> (\<exists>ms. model ms = Inl e)" .
  }
  {
    fix result assume "invoke_app ''agent'' prompt model (tool_node tools) [HumanMessage query] = Inr result"
    then have o: "snd ?s = Inr result" by (simp add: invoke_app_def)
    from trace_result_last[OF tr o] obtain ms c k evs where
      r: "result = ms @ [AIMessage c k]" and k: "function_call k = None"
      and ev: "fst ?s = evs @ [(''agent'', [AIMessage c k])]" by blast
    from ne ev have "\<forall>ev \<in> set evs. snd ev \<noteq> []" by simp
    from scan_final_total[OF this, of "[]"] obtain a where a: "scan_final evs [] = Inr a" ..
    have sc: "scan_final (fst ?s) [] = Inr (if kwargs_empty k then c else a)"
      using a ev by (simp add: scan_final_append last_item_def)
    have lc: "last_content result = Inr (content (last result))"
      using r by (simp add: last_content_def)
    from o lc show "run_email_agent prompt model tools query = Inr (content (last result))"
      "run_contact_agent prompt model tools query = Inr (content (last result))"
      "run_calendar_agent prompt model tools query = Inr (content (last result))"
      by (simp_all add: run_email_agent_def run_contact_agent_def run_calendar_agent_def invoke_app_def)
    from o sc r show "\<exists>answer. run_content_creator_agent prompt model tools query = Inr answer
               \<and> (kwargs_empty (additional_kwargs (last result)) \<longrightarrow> answer = content (last result))"
      "\<exists>answer. run_search_agent prompt model tools query = Inr answer
               \<and> (kwargs_empty (additional_kwargs (last result)) \<longrightarrow> answer = content (last result))"
      by (simp_all add: run_content_creator_agent_def run_search_agent_def consume_stream_def)
  }
qed

lemma invoke_app_failing:
  "invoke_app node prompt failing_model action inputs = Inl (OtherException ''503 Service Unavailable'')"
  by (simp add: invoke_app_def stream_def recursion_limit_def eval_nat_numeral
        run_graph_raised failing_model_def)

lemma invoke_app_always_requests:
  "invoke_app node prompt always_requests action inputs = Inl GraphRecursionError"
  using always_requests_trace[OF run_graph_trace, where node = node and prompt = prompt
          and action = action and steps = recursion_limit and messages = inputs]
  by (simp add: invoke_app_def stream_def)

text \<open>
  The theorem at a model that requests once and answers, at a model whose call raises,
  and at a model that requests on every call.
\<close>

theorem specialist_returns_or_raises_witness:
  "run_email_agent [] asks_once [send_email_tool (Inr inbox_service)] ''email Jane'' = Inr ''Done.''
   \<and> run_search_agent [] asks_once [send_email_tool (Inr inbox_service)] ''email Jane'' = Inr ''Done.''
   \<and> run_search_agent [] failing_model [] ''email Jane'' = Inl (OtherException ''503 Service Unavailable'')
   \<and> run_calendar_agent [] always_requests [send_email_tool (Inr inbox_service)] ''email Jane''
       = Inl GraphRecursionError"
proof -
  have r: "invoke_app ''agent'' [] asks_once (tool_node [send_email_tool (Inr inbox_service)])
             [HumanMessage ''email Jane''] = Inr once_transcript"
    by (simp add: invoke_app_def stream_asks_once)
  from specialist_returns_or_raises[of "[]" asks_once "[send_email_tool (Inr inbox_service)]" "''email Jane''"] r
       specialist_returns_or_raises[of "[]" failing_model "[]" "''email Jane''"]
       specialist_returns_or_raises[of "[]" always_requests "[send_email_tool (Inr inbox_service)]" "''email Jane''"]
  show ?thesis
    by (auto simp: once_transcript_def kwargs_empty_def no_kwargs_def invoke_app_failing
          invoke_app_always_requests)
qed

text \<open>
  Claim C4 as stated fails: when the call of the chat model raises, \<open>run_email_agent\<close>
  raises that exception instead of returning a text.
\<close>

theorem specialist_raises:
  "run_email_agent [] failing_model [send_email_tool (Inr inbox_service)] ''email Jane''
     = Inl (OtherException ''503 Service Unavailable'')"
  by (simp add: run_email_agent_def invoke_app_failing)

section \<open>Properties of the invoke endpoint\<close>




end
